theory Spec2Isabelle
  imports Complex_Main "HOL-Library.Sublist"
begin

section \<open>Data model (src/types/rbac.types.ts)\<close>

text \<open>
  JavaScript strings are modelled as \<open>string\<close>, numeric identifiers as \<open>int\<close>, an optional
  field \<open>f?: T\<close> as \<open>T option\<close> (\<open>None\<close> is \<open>undefined\<close>).

  The field \<open>metadata?: any\<close> of a compiled permission holds what \<open>JSON.parse\<close> returned in
  the compiler, so it is modelled as a JSON value. A number is represented by its value;
  the evaluator only ever looks at its truthiness.
\<close>

datatype json =
    JNull
  | JBool bool
  | JNum rat
  | JStr string
  | JArr "json list"
  | JObj "(string \<times> json) list"

record UserPermission =
  resourcePath :: string
  resourceId :: int
  actions :: "string list"
  isActive :: bool
  isOverride :: "bool option"
  hierarchyLevel :: int
  validFrom :: "string option"
  validTo :: "string option"
  metadata :: "json option"

text \<open>\<open>PermissionCheckParams\<close>; the fields carry the prefix \<open>req_\<close> because
  \<open>resourcePath\<close> is already a field of \<open>UserPermission\<close>.\<close>

record PermissionCheckParams =
  req_resourcePath :: string
  req_action :: string
  req_workflowStage :: "string option"

text \<open>The exceptions the modelled code can raise.\<close>

datatype error = TypeError | SyntaxError

section \<open>JavaScript value operations used by the evaluator\<close>

text \<open>Truthiness of a JSON value (\<open>if (v)\<close>, \<open>v && ...\<close>).\<close>

fun truthy :: "json \<Rightarrow> bool" where
  "truthy JNull = False"
| "truthy (JBool b) = b"
| "truthy (JNum n) = (n \<noteq> 0)"
| "truthy (JStr s) = (s \<noteq> [])"
| "truthy (JArr xs) = True"
| "truthy (JObj kvs) = True"

text \<open>
  \<open>v.name\<close> for one of the fixed names \<open>workflowRestrictions\<close>, \<open>restrictedActions\<close>,
  \<open>allowedActions\<close>: an own property of an object, \<open>undefined\<close> on every other value
  (no built-in prototype defines these names). On \<open>null\<close> the code reads a property only
  behind \<open>?.\<close>, which yields \<open>undefined\<close> as well.
\<close>

fun getProp :: "json \<Rightarrow> string \<Rightarrow> json option" where
  "getProp (JObj kvs) k = map_of kvs k"
| "getProp _ k = None"

text \<open>A canonical array index: \<open>0\<close> or a digit string without leading zero.\<close>

definition digitVal :: "char \<Rightarrow> nat" where
  "digitVal c = of_char c - 48"

definition isDigit :: "char \<Rightarrow> bool" where
  "isDigit c = (48 \<le> (of_char c :: nat) \<and> (of_char c :: nat) \<le> 57)"

definition arrayIndex :: "string \<Rightarrow> nat option" where
  "arrayIndex s =
     (if s \<noteq> [] \<and> list_all isDigit s \<and> (s = ''0'' \<or> hd s \<noteq> CHR ''0'')
      then Some (foldl (\<lambda>n c. 10 * n + digitVal c) 0 s) else None)"

text \<open>
  \<open>v[key]\<close> for a computed key on a truthy value (\<open>workflowRestrictions[currentStage]\<close>).
  An own property of an object, an element of an array, a character of a string or the
  \<open>length\<close> of either is returned as it is. Any other key resolves through the prototype
  chain to \<open>undefined\<close> or to a built-in member (a function or a prototype object); such a
  value has no \<open>restrictedActions\<close> and no \<open>allowedActions\<close>, so the code that follows
  behaves on it as on \<open>undefined\<close>, and both are \<open>None\<close> here.
\<close>

fun getIndex :: "json \<Rightarrow> string \<Rightarrow> json option" where
  "getIndex (JObj kvs) k = map_of kvs k"
| "getIndex (JArr xs) k =
     (if k = ''length'' then Some (JNum (of_nat (length xs)))
      else case arrayIndex k of
             Some i \<Rightarrow> (if i < length xs then Some (xs ! i) else None)
           | None \<Rightarrow> None)"
| "getIndex (JStr s) k =
     (if k = ''length'' then Some (JNum (of_nat (length s)))
      else case arrayIndex k of
             Some i \<Rightarrow> (if i < length s then Some (JStr [s ! i]) else None)
           | None \<Rightarrow> None)"
| "getIndex _ k = None"

text \<open>
  \<open>v.includes(action)\<close> on a value that is neither \<open>undefined\<close> nor \<open>null\<close>:
  \<open>Array.prototype.includes\<close> on an array, \<open>String.prototype.includes\<close> (substring test)
  on a string; a number, a boolean or an object has no callable \<open>includes\<close> and the call
  raises a TypeError.
\<close>

fun includesCall :: "json \<Rightarrow> string \<Rightarrow> error + bool" where
  "includesCall (JArr xs) a = Inr (JStr a \<in> set xs)"
| "includesCall (JStr s) a = Inr (sublist a s)"
| "includesCall _ a = Inl TypeError"

section \<open>Access evaluator (src/utils/rbacUtils.ts)\<close>

text \<open>\<open>resourcePath.split('/')\<close>.\<close>

fun split_slash :: "string \<Rightarrow> string list" where
  "split_slash [] = [[]]"
| "split_slash (c # cs) =
     (if c = CHR ''/'' then [] # split_slash cs
      else case split_slash cs of
             s # ss \<Rightarrow> (c # s) # ss
           | [] \<Rightarrow> [[c]])"

text \<open>\<open>segments.join('/')\<close>.\<close>

fun join_slash :: "string list \<Rightarrow> string" where
  "join_slash [] = []"
| "join_slash [s] = s"
| "join_slash (s # t # ss) = s @ ''/'' @ join_slash (t # ss)"

text \<open>Line 51: \<open>resourcePath.split('/').filter(Boolean)\<close>.\<close>

definition pathSegments :: "string \<Rightarrow> string list" where
  "pathSegments rp = filter (\<lambda>s. s \<noteq> []) (split_slash rp)"

text \<open>Line 54: \<open>'/' + pathSegments.slice(0, i + 1).join('/')\<close>.\<close>

definition parentPath :: "string list \<Rightarrow> nat \<Rightarrow> string" where
  "parentPath segs i = ''/'' @ join_slash (take (i + 1) segs)"

text \<open>Line 13: \<open>paramWorkflowStage || workflowStage\<close>; an empty string is falsy.\<close>

definition currentStage :: "PermissionCheckParams \<Rightarrow> string option \<Rightarrow> string option" where
  "currentStage params workflowStage =
     (case req_workflowStage params of
        Some s \<Rightarrow> (if s \<noteq> [] then Some s else workflowStage)
      | None \<Rightarrow> workflowStage)"

text \<open>
  \<open>metadata?.workflowRestrictions\<close>, and the value \<open>restrictions\<close> of lines 34-36 and
  73-75: \<open>None\<close> when one of the guards \<open>currentStage &&\<close>,
  \<open>metadata?.workflowRestrictions\<close>, \<open>if (restrictions)\<close> fails.
\<close>

definition workflowRestrictions :: "json option \<Rightarrow> json option" where
  "workflowRestrictions md =
     (case md of None \<Rightarrow> None | Some m \<Rightarrow> getProp m ''workflowRestrictions'')"

definition stageRestrictions :: "json option \<Rightarrow> string option \<Rightarrow> json option" where
  "stageRestrictions md stage =
     (case stage of
        None \<Rightarrow> None
      | Some st \<Rightarrow>
          if st = [] then None
          else (case workflowRestrictions md of
                  None \<Rightarrow> None
                | Some wr \<Rightarrow>
                    if truthy wr
                    then (case getIndex wr st of
                            None \<Rightarrow> None
                          | Some r \<Rightarrow> if truthy r then Some r else None)
                    else None))"

text \<open>Lines 37 and 76: \<open>restrictions.restrictedActions?.includes(action)\<close>;
  \<open>?.\<close> yields \<open>undefined\<close> (falsy) when the property is \<open>undefined\<close> or \<open>null\<close>.\<close>

definition restrictedIncludes :: "json \<Rightarrow> string \<Rightarrow> error + bool" where
  "restrictedIncludes restrictions action =
     (case getProp restrictions ''restrictedActions'' of
        None \<Rightarrow> Inr False
      | Some ra \<Rightarrow> if ra = JNull then Inr False else includesCall ra action)"

text \<open>Lines 40 and 79:
  \<open>restrictions.allowedActions && !restrictions.allowedActions.includes(action)\<close>.\<close>

definition allowedExcludes :: "json \<Rightarrow> string \<Rightarrow> error + bool" where
  "allowedExcludes restrictions action =
     (case getProp restrictions ''allowedActions'' of
        None \<Rightarrow> Inr False
      | Some aa \<Rightarrow>
          if truthy aa
          then (case includesCall aa action of Inl e \<Rightarrow> Inl e | Inr b \<Rightarrow> Inr (\<not> b))
          else Inr False)"

text \<open>
  The workflow block, written twice in the source with the same text (lines 34-44 for the
  exact match, lines 73-83 for the matched ancestor). \<open>Inr True\<close>: one of its
  \<open>return false\<close> statements is taken; \<open>Inr False\<close>: control falls through the block.
\<close>

definition workflowDenies :: "json option \<Rightarrow> string option \<Rightarrow> string \<Rightarrow> error + bool" where
  "workflowDenies md stage action =
     (case stageRestrictions md stage of
        None \<Rightarrow> Inr False
      | Some restrictions \<Rightarrow>
          (case restrictedIncludes restrictions action of
             Inl e \<Rightarrow> Inl e
           | Inr hit \<Rightarrow> if hit then Inr True else allowedExcludes restrictions action))"

text \<open>Lines 61-66: \<open>userPermissions.some(...)\<close>; \<open>prefix a b\<close> is \<open>b.startsWith(a)\<close>.\<close>

definition hasOverride :: "UserPermission list \<Rightarrow> string \<Rightarrow> string \<Rightarrow> bool" where
  "hasOverride userPermissions rp action =
     list_ex (\<lambda>permission.
        prefix rp (resourcePath permission) \<and>
        isOverride permission = Some True \<and>
        action \<notin> set (actions permission)) userPermissions"

text \<open>
  Lines 53-87, the loop \<open>for (let i = pathSegments.length - 1; i >= 0; i--)\<close>;
  the argument \<open>n\<close> is \<open>i + 1\<close>.
\<close>

fun ancestorLoop ::
  "UserPermission list \<Rightarrow> string \<Rightarrow> string \<Rightarrow> string option \<Rightarrow> string list \<Rightarrow> nat
   \<Rightarrow> error + bool" where
  "ancestorLoop userPermissions rp action stage segs 0 = Inr False"
| "ancestorLoop userPermissions rp action stage segs (Suc i) =
     (case find (\<lambda>permission. resourcePath permission = parentPath segs i) userPermissions of
        None \<Rightarrow> ancestorLoop userPermissions rp action stage segs i
      | Some parentPermission \<Rightarrow>
          if action \<in> set (actions parentPermission) then
            (if hasOverride userPermissions rp action then Inr False
             else case workflowDenies (metadata parentPermission) stage action of
                    Inl e \<Rightarrow> Inl e
                  | Inr denied \<Rightarrow> if denied then Inr False else Inr True)
          else ancestorLoop userPermissions rp action stage segs i)"

text \<open>Lines 7-90.\<close>

definition hasPermission ::
  "UserPermission list \<Rightarrow> PermissionCheckParams \<Rightarrow> string option \<Rightarrow> error + bool" where
  "hasPermission userPermissions params workflowStage =
     (let rp = req_resourcePath params;
          action = req_action params;
          stage = currentStage params workflowStage
      in case find (\<lambda>permission. resourcePath permission = rp) userPermissions of
           Some exactMatch \<Rightarrow>
             (let hasAction = (action \<in> set (actions exactMatch))
              in if isOverride exactMatch = Some True then Inr hasAction
                 else case workflowDenies (metadata exactMatch) stage action of
                        Inl e \<Rightarrow> Inl e
                      | Inr denied \<Rightarrow> if denied then Inr False else Inr hasAction)
         | None \<Rightarrow>
             ancestorLoop userPermissions rp action stage (pathSegments rp)
               (length (pathSegments rp)))"

section \<open>Permission compiler (src/store/slices/rbacSlice.ts)\<close>

text \<open>
  The rows and lookup tables of src/types/rbac.types.ts. \<open>ResourceId\<close> and \<open>ActionId\<close>
  name fields of two interfaces each; the fields of a matrix row carry the prefix \<open>pm_\<close>.
\<close>

record PermissionMatrix =
  PermissionId :: int
  RoleId :: int
  pm_ResourceId :: int
  pm_ActionId :: int
  IsActive :: bool
  ValidFrom :: "string option"
  ValidTo :: "string option"
  IsOverride :: "bool option"
  Metadata :: "string option"

record Resource =
  ResourceId :: int
  ResourcePath :: string
  ResourceName :: string
  ResourceType :: string
  HierarchyLevel :: int
  ParentResourceId :: "int option"

record Action =
  ActionId :: int
  Action :: string
  Description :: "string option"

text \<open>
  The compiler calls two library functions and reads the clock. They are parameters of
  the model: \<open>parseJSON\<close> is \<open>JSON.parse\<close> (\<open>None\<close>: it throws a SyntaxError),
  \<open>parseDate s\<close> is the time value of \<open>new Date(s)\<close> in milliseconds (\<open>None\<close>: an
  invalid date, whose comparisons are all false), and \<open>now\<close> is the time value of
  \<open>new Date()\<close>, taken as one reading for the whole run.
\<close>

text \<open>Lines 140-141: \<open>new Map(xs.map(x => [key x, x]))\<close>; a later pair replaces an earlier
  one with the same key.\<close>

definition resourceMap :: "Resource list \<Rightarrow> int \<Rightarrow> Resource option" where
  "resourceMap resources = fold (\<lambda>r m. m(ResourceId r \<mapsto> r)) resources Map.empty"

definition actionMap :: "Action list \<Rightarrow> int \<Rightarrow> Action option" where
  "actionMap actions_list = fold (\<lambda>a m. m(ActionId a \<mapsto> a)) actions_list Map.empty"

text \<open>
  Lines 151-156, one step of the grouping loop. The \<open>Map\<close> keeps its keys in insertion
  order, which is the order \<open>forEach\<close> visits the groups in, so it is an association list:
  a new key is appended, a row joins the end of its group.
\<close>

fun pushGroup ::
  "PermissionMatrix \<Rightarrow> (int \<times> PermissionMatrix list) list \<Rightarrow> (int \<times> PermissionMatrix list) list"
  where
  "pushGroup permission [] = [(pm_ResourceId permission, [permission])]"
| "pushGroup permission ((k, ps) # groups) =
     (if k = pm_ResourceId permission then (k, ps @ [permission]) # groups
      else (k, ps) # pushGroup permission groups)"

definition groupByResource ::
  "PermissionMatrix list \<Rightarrow> (int \<times> PermissionMatrix list) list" where
  "groupByResource rolePermissions = foldl (\<lambda>groups p. pushGroup p groups) [] rolePermissions"

text \<open>Lines 173-177, the predicate of \<open>validPermissions\<close>.\<close>

definition startsLater :: "(string \<Rightarrow> int option) \<Rightarrow> int \<Rightarrow> string option \<Rightarrow> bool" where
  "startsLater parseDate now vf =
     (case vf of
        None \<Rightarrow> False
      | Some s \<Rightarrow> s \<noteq> [] \<and> (case parseDate s of None \<Rightarrow> False | Some t \<Rightarrow> t > now))"

definition endedBefore :: "(string \<Rightarrow> int option) \<Rightarrow> int \<Rightarrow> string option \<Rightarrow> bool" where
  "endedBefore parseDate now vt =
     (case vt of
        None \<Rightarrow> False
      | Some s \<Rightarrow> s \<noteq> [] \<and> (case parseDate s of None \<Rightarrow> False | Some t \<Rightarrow> t < now))"

definition isValidNow :: "(string \<Rightarrow> int option) \<Rightarrow> int \<Rightarrow> PermissionMatrix \<Rightarrow> bool" where
  "isValidNow parseDate now p =
     (if startsLater parseDate now (ValidFrom p) then False
      else if endedBefore parseDate now (ValidTo p) then False
      else True)"

text \<open>Lines 166-169: the action names of the group's rows, unresolved ids dropped.\<close>

definition actionNames :: "(int \<Rightarrow> Action option) \<Rightarrow> PermissionMatrix list \<Rightarrow> string list" where
  "actionNames amap permissions =
     filter (\<lambda>name. name \<noteq> [])
       (map (\<lambda>p. case amap (pm_ActionId p) of Some a \<Rightarrow> Action a | None \<Rightarrow> []) permissions)"

text \<open>Line 190: \<open>firstPermission.Metadata ? JSON.parse(firstPermission.Metadata) : undefined\<close>.\<close>

definition parseMetadata :: "(string \<Rightarrow> json option) \<Rightarrow> string option \<Rightarrow> error + json option" where
  "parseMetadata parseJSON md =
     (case md of
        None \<Rightarrow> Inr None
      | Some s \<Rightarrow>
          if s = [] then Inr None
          else (case parseJSON s of None \<Rightarrow> Inl SyntaxError | Some j \<Rightarrow> Inr (Some j)))"

text \<open>
  Lines 159-193, the body of the \<open>forEach\<close> callback for one group: \<open>Inr None\<close> when no
  entry is pushed, \<open>Inr (Some entry)\<close> when one is, \<open>Inl\<close> when \<open>JSON.parse\<close> throws.
\<close>

definition compileGroup ::
  "(string \<Rightarrow> json option) \<Rightarrow> (string \<Rightarrow> int option) \<Rightarrow> int \<Rightarrow>
   (int \<Rightarrow> Resource option) \<Rightarrow> (int \<Rightarrow> Action option) \<Rightarrow>
   int \<Rightarrow> PermissionMatrix list \<Rightarrow> error + UserPermission option" where
  "compileGroup parseJSON parseDate now rmap amap rid permissions =
     (case rmap rid of
        None \<Rightarrow> Inr None
      | Some resource \<Rightarrow>
          (let acts = actionNames amap permissions;
               validPermissions = filter (isValidNow parseDate now) permissions
           in case validPermissions of
                [] \<Rightarrow> Inr None
              | firstPermission # rest \<Rightarrow>
                  (case parseMetadata parseJSON (Metadata firstPermission) of
                     Inl e \<Rightarrow> Inl e
                   | Inr md \<Rightarrow>
                       Inr (Some \<lparr>resourcePath = ResourcePath resource,
                                  resourceId = ResourceId resource,
                                  actions = acts,
                                  isActive = True,
                                  isOverride = IsOverride firstPermission,
                                  hierarchyLevel = HierarchyLevel resource,
                                  validFrom = ValidFrom firstPermission,
                                  validTo = ValidTo firstPermission,
                                  metadata = md\<rparr>))))"

text \<open>Lines 159-193, the \<open>forEach\<close> over the groups; an exception ends the run.\<close>

fun compileGroups ::
  "(string \<Rightarrow> json option) \<Rightarrow> (string \<Rightarrow> int option) \<Rightarrow> int \<Rightarrow>
   (int \<Rightarrow> Resource option) \<Rightarrow> (int \<Rightarrow> Action option) \<Rightarrow>
   (int \<times> PermissionMatrix list) list \<Rightarrow> error + UserPermission list" where
  "compileGroups parseJSON parseDate now rmap amap [] = Inr []"
| "compileGroups parseJSON parseDate now rmap amap ((rid, permissions) # groups) =
     (case compileGroup parseJSON parseDate now rmap amap rid permissions of
        Inl e \<Rightarrow> Inl e
      | Inr entry \<Rightarrow>
          (case compileGroups parseJSON parseDate now rmap amap groups of
             Inl e \<Rightarrow> Inl e
           | Inr userPermissions \<Rightarrow>
               Inr ((case entry of None \<Rightarrow> [] | Some u \<Rightarrow> [u]) @ userPermissions)))"

text \<open>Lines 127-196. \<open>!currentRoleId\<close> holds for \<open>undefined\<close> and for \<open>0\<close>.\<close>

definition transformToUserPermissions ::
  "(string \<Rightarrow> json option) \<Rightarrow> (string \<Rightarrow> int option) \<Rightarrow> int \<Rightarrow>
   PermissionMatrix list \<Rightarrow> Resource list \<Rightarrow> Action list \<Rightarrow> int option
   \<Rightarrow> error + UserPermission list" where
  "transformToUserPermissions parseJSON parseDate now permissionMatrix resources actions_list
     currentRoleId =
     (case currentRoleId of
        None \<Rightarrow> Inr []
      | Some role \<Rightarrow>
          if role = 0 then Inr []
          else
            (let rolePermissions = filter (\<lambda>p. RoleId p = role \<and> IsActive p) permissionMatrix
             in compileGroups parseJSON parseDate now (resourceMap resources)
                  (actionMap actions_list) (groupByResource rolePermissions)))"

section \<open>Vocabulary of the specification\<close>

text \<open>
  The definitions of this section are not translations of source functions: they name the
  notions the properties below are stated with.
\<close>

text \<open>The JSON array of the strings \<open>xs\<close>.\<close>

definition stringArray :: "string list \<Rightarrow> json" where
  "stringArray xs = JArr (map JStr xs)"

text \<open>
  The workflow rule in the words of the specification (section 4.2, step 3): deny when
  \<open>restrictedActions\<close> lists the action; otherwise deny when \<open>allowedActions\<close> is present
  and does not list it; otherwise the action-set membership result.
\<close>

definition workflowFiltered :: "string list option \<Rightarrow> string list option \<Rightarrow> string \<Rightarrow> bool \<Rightarrow> bool" where
  "workflowFiltered restricted allowed action membership =
     (if (case restricted of Some xs \<Rightarrow> action \<in> set xs | None \<Rightarrow> False) then False
      else if (case allowed of Some ys \<Rightarrow> action \<notin> set ys | None \<Rightarrow> False) then False
      else membership)"

text \<open>The ancestor at segment index \<open>j\<close> has an entry whose action set contains the action.\<close>

definition grantsAt :: "UserPermission list \<Rightarrow> string list \<Rightarrow> string \<Rightarrow> nat \<Rightarrow> bool" where
  "grantsAt perms segs action j =
     (case find (\<lambda>p. resourcePath p = parentPath segs j) perms of
        None \<Rightarrow> False
      | Some p \<Rightarrow> action \<in> set (actions p))"

text \<open>
  The documented shape of the metadata (docs/RBAC_Integration_Guide.md, and the return
  type of \<open>getWorkflowRestrictions\<close>): an object whose \<open>workflowRestrictions\<close>, when
  present, maps each stage to an object whose \<open>restrictedActions\<close> and \<open>allowedActions\<close>,
  when present, are arrays of strings.
\<close>

definition isStringArray :: "json \<Rightarrow> bool" where
  "isStringArray j = (case j of JArr xs \<Rightarrow> list_all (\<lambda>x. case x of JStr s \<Rightarrow> True | _ \<Rightarrow> False) xs | _ \<Rightarrow> False)"

definition wellShapedRestrictions :: "json \<Rightarrow> bool" where
  "wellShapedRestrictions r =
     (case r of
        JObj kvs \<Rightarrow>
          (case map_of kvs ''restrictedActions'' of None \<Rightarrow> True | Some v \<Rightarrow> isStringArray v) \<and>
          (case map_of kvs ''allowedActions'' of None \<Rightarrow> True | Some v \<Rightarrow> isStringArray v)
      | _ \<Rightarrow> False)"

definition wellShapedMetadata :: "json \<Rightarrow> bool" where
  "wellShapedMetadata m =
     (case m of
        JObj kvs \<Rightarrow>
          (case map_of kvs ''workflowRestrictions'' of
             None \<Rightarrow> True
           | Some (JObj stages) \<Rightarrow> list_all (\<lambda>kv. wellShapedRestrictions (snd kv)) stages
           | Some _ \<Rightarrow> False)
      | _ \<Rightarrow> False)"

definition wellShapedPermissions :: "UserPermission list \<Rightarrow> bool" where
  "wellShapedPermissions perms =
     list_all (\<lambda>p. case metadata p of None \<Rightarrow> True | Some m \<Rightarrow> wellShapedMetadata m) perms"

text \<open>
  The normalised form of a path with the segments \<open>segs\<close>: every segment preceded by one
  \<open>/\<close>. For a non-empty list this is \<open>/\<close> followed by the segments joined by \<open>/\<close>.
  It is written without \<open>join_slash\<close>, so that the two can be compared.
\<close>

definition normalizedPath :: "string list \<Rightarrow> string" where
  "normalizedPath segs = concat (map (\<lambda>s. CHR ''/'' # s) segs)"

text \<open>Every segment is non-empty and contains no \<open>/\<close>.\<close>

definition slashFree :: "string list \<Rightarrow> bool" where
  "slashFree segs = list_all (\<lambda>s. s \<noteq> [] \<and> CHR ''/'' \<notin> set s) segs"

text \<open>The rows of the (role, resource) group: what the compiler collects under the key
  \<open>rid\<close> for the active role.\<close>

definition roleGroup :: "int \<Rightarrow> int \<Rightarrow> PermissionMatrix list \<Rightarrow> PermissionMatrix list" where
  "roleGroup role rid permissionMatrix =
     filter (\<lambda>p. RoleId p = role \<and> IsActive p \<and> pm_ResourceId p = rid) permissionMatrix"

section \<open>Example data\<close>

text \<open>A compiled entry with the given path, action set, override flag and metadata.\<close>

definition entry :: "string \<Rightarrow> string list \<Rightarrow> bool option \<Rightarrow> json option \<Rightarrow> UserPermission" where
  "entry path acts ov md =
     \<lparr>resourcePath = path, resourceId = 1, actions = acts, isActive = True, isOverride = ov,
      hierarchyLevel = 0, validFrom = None, validTo = None, metadata = md\<rparr>"

definition request :: "string \<Rightarrow> string \<Rightarrow> string option \<Rightarrow> PermissionCheckParams" where
  "request path act stage =
     \<lparr>req_resourcePath = path, req_action = act, req_workflowStage = stage\<rparr>"

text \<open>\<open>{"workflowRestrictions": {"draft": {"restrictedActions": ["READ"]}}}\<close>\<close>

definition draftRestrictsRead :: json where
  "draftRestrictsRead =
     JObj [(''workflowRestrictions'',
            JObj [(''draft'', JObj [(''restrictedActions'', stringArray [''READ''])])])]"

text \<open>\<open>{"workflowRestrictions": {"draft":
  {"allowedActions": ["READ", "SUBMIT"], "restrictedActions": ["SUBMIT"]}}}\<close>\<close>

definition draftAllowsRestricts :: json where
  "draftAllowsRestricts =
     JObj [(''workflowRestrictions'',
            JObj [(''draft'', JObj [(''allowedActions'', stringArray [''READ'', ''SUBMIT'']),
                                    (''restrictedActions'', stringArray [''SUBMIT''])])])]"

text \<open>\<open>{"workflowRestrictions": {"draft": {"allowedActions": 5}}}\<close>\<close>

definition draftAllowedNumber :: json where
  "draftAllowedNumber =
     JObj [(''workflowRestrictions'', JObj [(''draft'', JObj [(''allowedActions'', JNum 5)])])]"

text \<open>
  Inputs of the compiler examples: a date parser that knows one timestamp
  (\<open>2020-01-01T00:00:00Z\<close>, 1577836800000 ms), a clock reading of 2026-11-02
  (1793577600000 ms), a JSON parser that accepts \<open>{}\<close> only, rows of role 1 on resource 10,
  the resource \<open>/orders\<close> and the actions \<open>READ\<close> and \<open>DELETE\<close>.
\<close>

definition exampleParseDate :: "string \<Rightarrow> int option" where
  "exampleParseDate s = (if s = ''2020-01-01T00:00:00Z'' then Some 1577836800000 else None)"

definition exampleNow :: int where
  "exampleNow = 1793577600000"

definition exampleParseJSON :: "string \<Rightarrow> json option" where
  "exampleParseJSON s = (if s = ''{}'' then Some (JObj []) else None)"

definition row :: "int \<Rightarrow> int \<Rightarrow> string option \<Rightarrow> string option \<Rightarrow> PermissionMatrix" where
  "row pid aid vt md =
     \<lparr>PermissionId = pid, RoleId = 1, pm_ResourceId = 10, pm_ActionId = aid, IsActive = True,
      ValidFrom = None, ValidTo = vt, IsOverride = None, Metadata = md\<rparr>"

definition ordersResource :: Resource where
  "ordersResource =
     \<lparr>ResourceId = 10, ResourcePath = ''/orders'', ResourceName = ''Orders'',
      ResourceType = ''PAGE'', HierarchyLevel = 0, ParentResourceId = None\<rparr>"

definition exampleActions :: "Action list" where
  "exampleActions =
     [\<lparr>ActionId = 1, Action = ''READ'', Description = None\<rparr>,
      \<lparr>ActionId = 2, Action = ''DELETE'', Description = None\<rparr>]"

lemmas compiler_defs =
  transformToUserPermissions_def groupByResource_def compileGroup_def resourceMap_def
  actionMap_def actionNames_def isValidNow_def startsLater_def endedBefore_def
  parseMetadata_def

lemmas evaluator_defs =
  hasPermission_def currentStage_def pathSegments_def parentPath_def hasOverride_def
  workflowDenies_def stageRestrictions_def workflowRestrictions_def restrictedIncludes_def
  allowedExcludes_def

section \<open>Properties of the evaluator\<close>

subsection \<open>Default deny\<close>

lemma ancestorLoop_Nil: "ancestorLoop [] rp action stage segs n = Inr False"
  by (induction n) simp_all

text \<open>
  C9 (default deny): on the empty permission list the evaluator returns \<open>false\<close> for every
  resource path, every action and every workflow stage, explicit or ambient.
\<close>

theorem default_deny: "hasPermission [] params workflowStage = Inr False"
  by (simp add: hasPermission_def ancestorLoop_Nil)

subsection \<open>Auxiliary facts\<close>

lemma exact_lookup_unique:
  "distinct (map resourcePath perms) \<Longrightarrow> e \<in> set perms \<Longrightarrow>
   find (\<lambda>p. resourcePath p = resourcePath e) perms = Some e"
  by (induction perms) (auto simp: rev_image_eqI)

lemma find_in_set: "find P xs = Some x \<Longrightarrow> x \<in> set xs"
  by (auto simp: find_Some_iff)

lemma hasPermission_no_exact:
  "find (\<lambda>p. resourcePath p = req_resourcePath params) perms = None \<Longrightarrow>
   hasPermission perms params workflowStage
     = ancestorLoop perms (req_resourcePath params) (req_action params)
         (currentStage params workflowStage) (pathSegments (req_resourcePath params))
         (length (pathSegments (req_resourcePath params)))"
  by (simp add: hasPermission_def Let_def)

lemma hasOverride_loop:
  "hasOverride perms rp action \<Longrightarrow> ancestorLoop perms rp action stage segs n = Inr False"
  by (induction n) (simp_all split: option.split)

lemma ancestorLoop_skip:
  assumes "\<forall>j. i < j \<and> j < n \<longrightarrow> \<not> grantsAt perms segs action j" and "i < n"
  shows "ancestorLoop perms rp action stage segs n = ancestorLoop perms rp action stage segs (Suc i)"
  using assms
proof (induction n)
  case 0
  then show ?case by simp
next
  case (Suc n)
  show ?case
  proof (cases "i = n")
    case True
    then show ?thesis by simp
  next
    case False
    with Suc.prems have lt: "i < n" by simp
    from Suc.prems lt have ng: "\<not> grantsAt perms segs action n" by simp
    have "ancestorLoop perms rp action stage segs (Suc n) = ancestorLoop perms rp action stage segs n"
      using ng by (auto simp: grantsAt_def split: option.splits)
    also have "\<dots> = ancestorLoop perms rp action stage segs (Suc i)"
      using Suc.IH Suc.prems lt by simp
    finally show ?thesis .
  qed
qed

lemma stringArray_includes: "includesCall (stringArray xs) a = Inr (a \<in> set xs)"
  by (auto simp: stringArray_def)

lemma workflowDenies_shape:
  assumes "stageRestrictions md stage = Some (JObj kvs)"
    and "map_of kvs ''restrictedActions'' = map_option stringArray restricted"
    and "map_of kvs ''allowedActions'' = map_option stringArray allowed"
  shows "workflowDenies md stage action = Inr (\<not> workflowFiltered restricted allowed action True)"
  using assms
  by (cases restricted; cases allowed)
     (simp_all add: workflowDenies_def restrictedIncludes_def allowedExcludes_def
        workflowFiltered_def stringArray_includes, simp_all add: stringArray_def)

lemma isStringArray_includes: "isStringArray v \<Longrightarrow> \<exists>b. includesCall v a = Inr b"
  by (cases v) (simp_all add: isStringArray_def)

lemma wellShaped_restricted:
  "wellShapedRestrictions r \<Longrightarrow> \<exists>b. restrictedIncludes r a = Inr b"
  by (cases r)
     (auto simp: wellShapedRestrictions_def restrictedIncludes_def isStringArray_includes
           split: option.splits)

lemma wellShaped_allowed:
  "wellShapedRestrictions r \<Longrightarrow> \<exists>b. allowedExcludes r a = Inr b"
proof (cases r)
  case (JObj kvs)
  assume ws: "wellShapedRestrictions r"
  show ?thesis
  proof (cases "map_of kvs ''allowedActions''")
    case None
    with JObj show ?thesis by (auto simp: allowedExcludes_def)
  next
    case (Some aa)
    with ws JObj have "isStringArray aa" by (simp add: wellShapedRestrictions_def)
    then obtain b where "includesCall aa a = Inr b" using isStringArray_includes by blast
    with JObj Some show ?thesis by (auto simp: allowedExcludes_def)
  qed
qed (simp_all add: wellShapedRestrictions_def)

lemma wellShaped_stage:
  assumes "wellShapedMetadata m" and "stageRestrictions (Some m) stage = Some r"
  shows "wellShapedRestrictions r"
proof -
  from assms(1) obtain kvs where m: "m = JObj kvs"
    by (cases m) (simp_all add: wellShapedMetadata_def)
  from assms(2) obtain st wr where st: "stage = Some st"
    and wr: "workflowRestrictions (Some m) = Some wr" and r: "getIndex wr st = Some r"
    by (auto simp: stageRestrictions_def split: option.splits if_splits)
  from wr m have lk: "map_of kvs ''workflowRestrictions'' = Some wr"
    by (simp add: workflowRestrictions_def)
  with assms(1) m obtain stages where wrs: "wr = JObj stages"
    and all: "list_all (\<lambda>kv. wellShapedRestrictions (snd kv)) stages"
    by (cases wr) (simp_all add: wellShapedMetadata_def)
  from r wrs have "(st, r) \<in> set stages" by (simp add: map_of_SomeD)
  with all show ?thesis by (auto simp: list_all_iff)
qed

lemma workflowDenies_total:
  assumes "case md of None \<Rightarrow> True | Some m \<Rightarrow> wellShapedMetadata m"
  shows "\<exists>b. workflowDenies md stage a = Inr b"
proof (cases "stageRestrictions md stage")
  case None
  then show ?thesis by (auto simp: workflowDenies_def)
next
  case (Some r)
  then obtain m where md: "md = Some m"
    by (cases md) (simp_all add: stageRestrictions_def workflowRestrictions_def split: option.splits)
  with assms Some have ws: "wellShapedRestrictions r" using wellShaped_stage by auto
  obtain b1 where b1: "restrictedIncludes r a = Inr b1" using wellShaped_restricted [OF ws] by blast
  obtain b2 where b2: "allowedExcludes r a = Inr b2" using wellShaped_allowed [OF ws] by blast
  show ?thesis using Some b1 b2 by (auto simp: workflowDenies_def)
qed

lemma ancestorLoop_total:
  assumes "wellShapedPermissions perms"
  shows "\<exists>b. ancestorLoop perms rp a stage segs n = Inr b"
proof (induction n)
  case 0
  show ?case by auto
next
  case (Suc n)
  show ?case
  proof (cases "find (\<lambda>p. resourcePath p = parentPath segs n) perms")
    case None
    with Suc show ?thesis by simp
  next
    case (Some pp)
    then have "pp \<in> set perms" by (rule find_in_set)
    with assms have "case metadata pp of None \<Rightarrow> True | Some m \<Rightarrow> wellShapedMetadata m"
      by (simp add: wellShapedPermissions_def list_all_iff)
    then obtain d where "workflowDenies (metadata pp) stage a = Inr d"
      using workflowDenies_total by blast
    with Some Suc show ?thesis by auto
  qed
qed

lemma join_slash_normalized:
  "segs \<noteq> [] \<Longrightarrow> CHR ''/'' # join_slash segs = normalizedPath segs"
  by (induction segs rule: join_slash.induct) (simp_all add: normalizedPath_def)

lemma split_slash_segment:
  "CHR ''/'' \<notin> set s \<Longrightarrow> split_slash (s @ CHR ''/'' # r) = s # split_slash r"
  by (induction s) auto

lemma split_slash_single: "CHR ''/'' \<notin> set s \<Longrightarrow> split_slash s = [s]"
  by (induction s) auto

lemma split_slash_normalized:
  "CHR ''/'' \<notin> set s \<Longrightarrow> list_all (\<lambda>s. CHR ''/'' \<notin> set s) segs \<Longrightarrow>
   split_slash (s @ normalizedPath segs) = s # segs"
proof (induction segs arbitrary: s)
  case Nil
  then show ?case by (simp add: normalizedPath_def split_slash_single)
next
  case (Cons x xs)
  have "split_slash (s @ normalizedPath (x # xs)) = split_slash (s @ CHR ''/'' # (x @ normalizedPath xs))"
    by (simp add: normalizedPath_def)
  also have "\<dots> = s # split_slash (x @ normalizedPath xs)"
    using Cons.prems(1) by (rule split_slash_segment)
  also have "\<dots> = s # x # xs"
    using Cons.IH [of x] Cons.prems(2) by simp
  finally show ?case .
qed

lemma split_slash_normalized_trailing:
  "CHR ''/'' \<notin> set s \<Longrightarrow> list_all (\<lambda>s. CHR ''/'' \<notin> set s) segs \<Longrightarrow>
   split_slash (s @ normalizedPath segs @ ''/'') = s # segs @ [[]]"
proof (induction segs arbitrary: s)
  case Nil
  then show ?case using split_slash_segment [of s "[]"] by (simp add: normalizedPath_def)
next
  case (Cons x xs)
  have "split_slash (s @ normalizedPath (x # xs) @ ''/'')
      = split_slash (s @ CHR ''/'' # (x @ normalizedPath xs @ ''/''))"
    by (simp add: normalizedPath_def)
  also have "\<dots> = s # split_slash (x @ normalizedPath xs @ ''/'')"
    using Cons.prems(1) by (rule split_slash_segment)
  also have "\<dots> = s # x # xs @ [[]]"
    using Cons.IH [of x] Cons.prems(2) by simp
  finally show ?case by simp
qed

lemma slashFree_parts:
  "slashFree segs \<Longrightarrow> list_all (\<lambda>s. CHR ''/'' \<notin> set s) segs \<and> filter (\<lambda>s. s \<noteq> []) segs = segs"
  by (induction segs) (simp_all add: slashFree_def)

lemma pathSegments_trailing_slash:
  assumes "slashFree segs"
  shows "pathSegments (normalizedPath segs @ ''/'') = segs"
  using split_slash_normalized_trailing [of "[]" segs] slashFree_parts [OF assms]
  by (simp add: pathSegments_def)

lemma pathSegments_no_leading_slash:
  assumes "slashFree segs"
  shows "pathSegments (tl (normalizedPath segs)) = segs"
proof (cases segs)
  case Nil
  then show ?thesis by (simp add: normalizedPath_def pathSegments_def)
next
  case (Cons x xs)
  with assms have x: "CHR ''/'' \<notin> set x" "x \<noteq> []" and xs: "slashFree xs"
    by (simp_all add: slashFree_def)
  have "tl (normalizedPath segs) = x @ normalizedPath xs"
    using Cons by (simp add: normalizedPath_def)
  then have "split_slash (tl (normalizedPath segs)) = x # xs"
    using split_slash_normalized [of x xs] x slashFree_parts [OF xs] by simp
  then show ?thesis
    using Cons x slashFree_parts [OF xs] by (simp add: pathSegments_def)
qed

subsection \<open>Override entries\<close>

text \<open>
  C1, evaluated on the code. The permission list is
  \<open>[{path: "/orders", actions: ["READ"]}, {path: "/orders/form", actions: [], isOverride: true}]\<close>
  and the request is \<open>("/orders/form/amount", "READ")\<close> with no workflow stage. No entry
  matches exactly; the walk finds no entry at \<open>/orders/form/amount\<close>, skips the entry at
  \<open>/orders/form\<close> because its action set lacks \<open>READ\<close>, and is granted \<open>READ\<close> by
  \<open>/orders\<close>. The override test of lines 61-66 asks for an entry whose path starts with
  \<open>/orders/form/amount\<close>; neither \<open>/orders\<close> nor \<open>/orders/form\<close> does, so the override
  entry does not block and the evaluator returns \<open>true\<close>.
\<close>

theorem override_on_intermediate_ancestor_does_not_block:
  "hasPermission
     [entry ''/orders'' [''READ''] None None, entry ''/orders/form'' [] (Some True) None]
     (request ''/orders/form/amount'' ''READ'' None) None = Inr True"
  by (simp add: evaluator_defs entry_def request_def)

text \<open>
  C3 (override-deny check): when no entry matches the requested path exactly and some
  ancestor path of the walk has an entry containing the action, the evaluator denies as
  soon as any entry whose resource path starts with the requested path string itself is
  marked override and lacks the action. The prefix test is on the requested path, not on
  the path of the ancestor that grants.
\<close>

theorem override_deny:
  assumes "find (\<lambda>p. resourcePath p = req_resourcePath params) perms = None"
    and "\<exists>i < length (pathSegments (req_resourcePath params)). \<exists>e.
           find (\<lambda>p. resourcePath p = parentPath (pathSegments (req_resourcePath params)) i) perms
             = Some e
           \<and> req_action params \<in> set (actions e)"
    and "\<exists>p \<in> set perms. prefix (req_resourcePath params) (resourcePath p)
           \<and> isOverride p = Some True \<and> req_action params \<notin> set (actions p)"
  shows "hasPermission perms params workflowStage = Inr False"
proof -
  from assms(3) have "hasOverride perms (req_resourcePath params) (req_action params)"
    by (auto simp: hasOverride_def list_ex_iff)
  then show ?thesis
    using assms(1) by (simp add: hasPermission_no_exact hasOverride_loop)
qed

text \<open>
  Witness: the request \<open>("/a/b", "READ")\<close> is granted by the ancestor \<open>/a\<close>, and the
  override entry at \<open>/a/b/c\<close>, whose path starts with \<open>/a/b\<close> and whose action set lacks
  \<open>READ\<close>, turns the result into deny.
\<close>

theorem override_deny_witness:
  "hasPermission [entry ''/a'' [''READ''] None None, entry ''/a/b/c'' [] (Some True) None]
     (request ''/a/b'' ''READ'' None) None = Inr False"
proof (rule override_deny)
  let ?perms = "[entry ''/a'' [''READ''] None None, entry ''/a/b/c'' [] (Some True) None]"
  let ?params = "request ''/a/b'' ''READ'' None"
  show "find (\<lambda>p. resourcePath p = req_resourcePath ?params) ?perms = None"
    by (simp add: entry_def request_def)
  show "\<exists>i < length (pathSegments (req_resourcePath ?params)). \<exists>e.
           find (\<lambda>p. resourcePath p = parentPath (pathSegments (req_resourcePath ?params)) i) ?perms
             = Some e
           \<and> req_action ?params \<in> set (actions e)"
    by (rule exI [of _ 0]) (simp add: entry_def request_def pathSegments_def parentPath_def)
  show "\<exists>p \<in> set ?perms. prefix (req_resourcePath ?params) (resourcePath p)
           \<and> isOverride p = Some True \<and> req_action ?params \<notin> set (actions p)"
    by (simp add: entry_def request_def)
qed

text \<open>
  C4 (override short-circuit): when the exact-match lookup returns an entry whose
  \<open>isOverride\<close> flag is true, the result is exactly the membership of the requested action
  in that entry's action set, whatever the entry's metadata, the workflow stage and the
  other entries are. The exact-match lookup is \<open>Array.prototype.find\<close>: it returns the
  first entry whose path equals the requested path, which is the only such entry when
  resource paths are unique (\<open>exact_lookup_unique\<close>).
\<close>

theorem override_short_circuit:
  assumes "find (\<lambda>p. resourcePath p = req_resourcePath params) perms = Some e"
    and "isOverride e = Some True"
  shows "hasPermission perms params workflowStage = Inr (req_action params \<in> set (actions e))"
  using assms by (simp add: hasPermission_def)

text \<open>
  Witness, the example of the claim: the override entry \<open>{path: "/a", actions: ["READ"]}\<close>
  whose metadata restricts \<open>READ\<close> in stage \<open>draft\<close> still returns \<open>true\<close> for \<open>READ\<close> in
  stage \<open>draft\<close>.
\<close>

theorem override_short_circuit_witness:
  "hasPermission [entry ''/a'' [''READ''] (Some True) (Some draftRestrictsRead)]
     (request ''/a'' ''READ'' (Some ''draft'')) None = Inr True"
  using override_short_circuit
    [of "request ''/a'' ''READ'' (Some ''draft'')"
        "[entry ''/a'' [''READ''] (Some True) (Some draftRestrictsRead)]"
        "entry ''/a'' [''READ''] (Some True) (Some draftRestrictsRead)" None]
  by (simp add: entry_def request_def)

subsection \<open>Workflow stage\<close>

text \<open>
  C5 (workflow-stage filtering): let \<open>e\<close> be the selected entry, either the exact match
  when it is not an override, or the most specific ancestor that contains the action when
  no exact match exists and the override-deny check has passed. When the metadata of \<open>e\<close>
  has a restriction object for the resolved stage, with \<open>restrictedActions\<close> and
  \<open>allowedActions\<close> each absent or an array of strings, the result is: deny if
  \<open>restrictedActions\<close> lists the action, also when \<open>allowedActions\<close> lists it too;
  otherwise deny if \<open>allowedActions\<close> is present and does not list the action; otherwise
  the membership of the action in the action set of \<open>e\<close>.
\<close>

theorem workflow_filtering:
  assumes "stageRestrictions (metadata e) (currentStage params workflowStage) = Some (JObj kvs)"
    and "map_of kvs ''restrictedActions'' = map_option stringArray restricted"
    and "map_of kvs ''allowedActions'' = map_option stringArray allowed"
  shows "(find (\<lambda>p. resourcePath p = req_resourcePath params) perms = Some e \<and>
          isOverride e \<noteq> Some True
          \<longrightarrow> hasPermission perms params workflowStage
              = Inr (workflowFiltered restricted allowed (req_action params)
                       (req_action params \<in> set (actions e))))
       \<and> (find (\<lambda>p. resourcePath p = req_resourcePath params) perms = None \<and>
          i < length (pathSegments (req_resourcePath params)) \<and>
          find (\<lambda>p. resourcePath p = parentPath (pathSegments (req_resourcePath params)) i) perms = Some e \<and>
          req_action params \<in> set (actions e) \<and>
          (\<forall>j. i < j \<and> j < length (pathSegments (req_resourcePath params))
                \<longrightarrow> \<not> grantsAt perms (pathSegments (req_resourcePath params)) (req_action params) j) \<and>
          \<not> hasOverride perms (req_resourcePath params) (req_action params)
          \<longrightarrow> hasPermission perms params workflowStage
              = Inr (workflowFiltered restricted allowed (req_action params)
                       (req_action params \<in> set (actions e))))"
proof -
  note wd = workflowDenies_shape [OF assms, of "req_action params"]
  have exact: "hasPermission perms params workflowStage
      = Inr (workflowFiltered restricted allowed (req_action params) (req_action params \<in> set (actions e)))"
    if "find (\<lambda>p. resourcePath p = req_resourcePath params) perms = Some e"
      and "isOverride e \<noteq> Some True"
    using that wd by (simp add: hasPermission_def workflowFiltered_def)
  have anc: "hasPermission perms params workflowStage
      = Inr (workflowFiltered restricted allowed (req_action params) (req_action params \<in> set (actions e)))"
    if none: "find (\<lambda>p. resourcePath p = req_resourcePath params) perms = None"
      and i: "i < length (pathSegments (req_resourcePath params))"
      and f: "find (\<lambda>p. resourcePath p = parentPath (pathSegments (req_resourcePath params)) i) perms = Some e"
      and a: "req_action params \<in> set (actions e)"
      and skip: "\<forall>j. i < j \<and> j < length (pathSegments (req_resourcePath params))
                \<longrightarrow> \<not> grantsAt perms (pathSegments (req_resourcePath params)) (req_action params) j"
      and no: "\<not> hasOverride perms (req_resourcePath params) (req_action params)"
  proof -
    have "hasPermission perms params workflowStage
        = ancestorLoop perms (req_resourcePath params) (req_action params)
            (currentStage params workflowStage) (pathSegments (req_resourcePath params))
            (length (pathSegments (req_resourcePath params)))"
      using none by (rule hasPermission_no_exact)
    also have "\<dots> = ancestorLoop perms (req_resourcePath params) (req_action params)
            (currentStage params workflowStage) (pathSegments (req_resourcePath params)) (Suc i)"
      by (rule ancestorLoop_skip [OF skip i])
    also have "\<dots> = Inr (workflowFiltered restricted allowed (req_action params) (req_action params \<in> set (actions e)))"
      using a no wd by (simp add: f workflowFiltered_def)
    finally show ?thesis .
  qed
  from exact anc show ?thesis by blast
qed


text \<open>
  Witness, on the example of the specification: with
  \<open>draft: {allowedActions: ["READ", "SUBMIT"], restrictedActions: ["SUBMIT"]}\<close> and the
  action set \<open>["READ", "SUBMIT"]\<close>, \<open>SUBMIT\<close> is denied in stage \<open>draft\<close> both on the
  entry's own path (first part) and on a path below it (second part).
\<close>

theorem workflow_filtering_witness:
  "hasPermission [entry ''/a'' [''READ'', ''SUBMIT''] None (Some draftAllowsRestricts)]
     (request ''/a'' ''SUBMIT'' (Some ''draft'')) None = Inr False
   \<and> hasPermission [entry ''/a'' [''READ'', ''SUBMIT''] None (Some draftAllowsRestricts)]
     (request ''/a/b'' ''SUBMIT'' (Some ''draft'')) None = Inr False"
proof -
  let ?e = "entry ''/a'' [''READ'', ''SUBMIT''] None (Some draftAllowsRestricts)"
  let ?kvs = "[(''allowedActions'', stringArray [''READ'', ''SUBMIT'']),
               (''restrictedActions'', stringArray [''SUBMIT''])]"
  have ra: "map_of ?kvs ''restrictedActions'' = map_option stringArray (Some [''SUBMIT''])"
    by simp
  have aa: "map_of ?kvs ''allowedActions'' = map_option stringArray (Some [''READ'', ''SUBMIT''])"
    by simp
  have st1: "stageRestrictions (metadata ?e)
      (currentStage (request ''/a'' ''SUBMIT'' (Some ''draft'')) None) = Some (JObj ?kvs)"
    by (simp add: stageRestrictions_def workflowRestrictions_def currentStage_def entry_def
        request_def draftAllowsRestricts_def)
  have st2: "stageRestrictions (metadata ?e)
      (currentStage (request ''/a/b'' ''SUBMIT'' (Some ''draft'')) None) = Some (JObj ?kvs)"
    by (simp add: stageRestrictions_def workflowRestrictions_def currentStage_def entry_def
        request_def draftAllowsRestricts_def)
  have "hasPermission [?e] (request ''/a'' ''SUBMIT'' (Some ''draft'')) None = Inr False"
    using workflow_filtering [OF st1 ra aa, of "[?e]" 0, THEN conjunct1]
    by (simp add: entry_def request_def workflowFiltered_def)
  moreover
  have "hasPermission [?e] (request ''/a/b'' ''SUBMIT'' (Some ''draft'')) None = Inr False"
    using workflow_filtering [OF st2 ra aa, of "[?e]" 0, THEN conjunct2]
    by (auto simp: entry_def request_def workflowFiltered_def pathSegments_def parentPath_def
        hasOverride_def grantsAt_def less_Suc_eq)
  ultimately show ?thesis by simp
qed

text \<open>
  C6 as stated fails on the code: an explicit stage that is the empty string is falsy, so
  \<open>paramWorkflowStage || workflowStage\<close> falls back to the ambient stage. With the ambient
  stage \<open>draft\<close>, whose restriction denies \<open>READ\<close>, the request with the explicit stage
  \<open>""\<close> is denied, while the same request with the explicit stage alone is allowed.
\<close>

theorem explicit_stage_precedence_counterexample:
  "hasPermission [entry ''/a'' [''READ''] None (Some draftRestrictsRead)]
     (request ''/a'' ''READ'' (Some [])) (Some ''draft'') = Inr False
   \<and> hasPermission [entry ''/a'' [''READ''] None (Some draftRestrictsRead)]
     (request ''/a'' ''READ'' (Some [])) None = Inr True"
  by (simp add: evaluator_defs entry_def request_def draftRestrictsRead_def stringArray_def)

text \<open>
  C6, amended: for every permission list, path and action, every non-empty explicit stage
  and every ambient stage, the explicit stage is the stage used for workflow filtering, and
  evaluating with the explicit and the ambient stage gives the same result as evaluating
  with the explicit stage alone.
\<close>

theorem explicit_stage_precedence:
  assumes "s \<noteq> []"
  shows "currentStage (params\<lparr>req_workflowStage := Some s\<rparr>) workflowStage = Some s
       \<and> hasPermission perms (params\<lparr>req_workflowStage := Some s\<rparr>) workflowStage
         = hasPermission perms (params\<lparr>req_workflowStage := Some s\<rparr>) None"
  using assms by (simp add: hasPermission_def currentStage_def)

theorem explicit_stage_precedence_witness:
  "hasPermission [entry ''/a'' [''READ''] None (Some draftRestrictsRead)]
     (request ''/a'' ''READ'' (Some ''approved'')) (Some ''draft'')
   = hasPermission [entry ''/a'' [''READ''] None (Some draftRestrictsRead)]
     (request ''/a'' ''READ'' (Some ''approved'')) None"
  using explicit_stage_precedence
    [of "''approved''" "request ''/a'' ''READ'' None" "Some ''draft''"
        "[entry ''/a'' [''READ''] None (Some draftRestrictsRead)]"]
  by (simp add: request_def)

subsection \<open>Totality\<close>

text \<open>
  C7 as stated fails on the code: the metadata of an entry has the type \<open>any\<close>, and on
  the metadata \<open>{"workflowRestrictions": {"draft": {"allowedActions": 5}}}\<close> in stage
  \<open>draft\<close> line 40 calls \<open>includes\<close> on the number \<open>5\<close>, which raises a TypeError instead
  of returning a boolean.
\<close>

theorem evaluator_total_counterexample:
  "hasPermission [entry ''/a'' [''READ''] None (Some draftAllowedNumber)]
     (request ''/a'' ''READ'' (Some ''draft'')) None = Inl TypeError"
  by (simp add: evaluator_defs entry_def request_def draftAllowedNumber_def)

text \<open>
  C7, amended: for every permission list whose entries carry no metadata or metadata of
  the documented shape, every resource path (the empty string included), every action
  (unknown names included) and every workflow stage, explicit or ambient, the evaluator
  raises no exception and returns a boolean.
\<close>

theorem evaluator_total_on_documented_metadata:
  assumes "wellShapedPermissions perms"
  shows "\<exists>b. hasPermission perms params workflowStage = Inr b"
proof (cases "find (\<lambda>p. resourcePath p = req_resourcePath params) perms")
  case None
  then show ?thesis using ancestorLoop_total [OF assms] by (simp add: hasPermission_no_exact)
next
  case (Some e)
  then have "e \<in> set perms" by (rule find_in_set)
  with assms have "case metadata e of None \<Rightarrow> True | Some m \<Rightarrow> wellShapedMetadata m"
    by (simp add: wellShapedPermissions_def list_all_iff)
  then obtain d where "workflowDenies (metadata e) (currentStage params workflowStage) (req_action params) = Inr d"
    using workflowDenies_total by blast
  with Some show ?thesis by (auto simp: hasPermission_def Let_def)
qed

theorem evaluator_total_on_documented_metadata_witness:
  "wellShapedPermissions
     [entry ''/a'' [''READ''] None (Some draftAllowsRestricts), entry [] [] None None]
   \<and> (\<exists>b. hasPermission
        [entry ''/a'' [''READ''] None (Some draftAllowsRestricts), entry [] [] None None]
        (request [] ''FROBNICATE'' (Some ''draft'')) None = Inr b)"
proof -
  have ws: "wellShapedPermissions
     [entry ''/a'' [''READ''] None (Some draftAllowsRestricts), entry [] [] None None]"
    by (simp add: wellShapedPermissions_def wellShapedMetadata_def wellShapedRestrictions_def
        isStringArray_def entry_def draftAllowsRestricts_def stringArray_def)
  from ws evaluator_total_on_documented_metadata [OF ws] show ?thesis by blast
qed

subsection \<open>Hierarchical fallback\<close>

text \<open>
  C10 as stated fails on the code for an entry whose own path is not in normalised form.
  The entry at \<open>/orders//form\<close> has \<open>READ\<close> in its action set, and the request
  \<open>/orders//form/\<close> differs from the entry's path only by a trailing slash and matches no
  entry exactly. Its non-empty segments are \<open>orders\<close> and \<open>form\<close>, so the walk looks up
  \<open>/orders/form\<close> and \<open>/orders\<close>, finds neither, and the request is denied.
\<close>

theorem normalized_fallback_counterexample:
  "hasPermission [entry ''/orders//form'' [''READ''] None None]
     (request ''/orders//form/'' ''READ'' None) None = Inr False"
  by (simp add: evaluator_defs entry_def request_def)

text \<open>
  C10, amended: for a request path with at least one non-empty segment and no exact-match
  entry, the first path the walk looks up is the normalised form of the request, that is
  \<open>/\<close> followed by the non-empty segments joined by \<open>/\<close> (each segment preceded by one
  \<open>/\<close>). An entry at that path whose action set contains the action decides the request:
  deny if the override-deny check fires, otherwise the outcome of the workflow check on
  that entry, and allow when neither objects. In particular this holds for an entry whose
  own path is in normalised form, with segments that are non-empty and free of \<open>/\<close>, when
  the request is the entry's path with a trailing slash added or with its leading slash
  removed.
\<close>

theorem normalized_fallback:
  assumes "pathSegments (req_resourcePath params) \<noteq> []"
    and "find (\<lambda>p. resourcePath p = req_resourcePath params) perms = None"
  shows "parentPath (pathSegments (req_resourcePath params))
           (length (pathSegments (req_resourcePath params)) - 1)
         = normalizedPath (pathSegments (req_resourcePath params))
       \<and> (find (\<lambda>p. resourcePath p = normalizedPath (pathSegments (req_resourcePath params))) perms
            = Some e \<and>
          req_action params \<in> set (actions e)
          \<longrightarrow> hasPermission perms params workflowStage
              = (if hasOverride perms (req_resourcePath params) (req_action params) then Inr False
                 else case workflowDenies (metadata e) (currentStage params workflowStage)
                             (req_action params) of
                        Inl err \<Rightarrow> Inl err
                      | Inr denied \<Rightarrow> Inr (\<not> denied)))
       \<and> (slashFree segs \<and> resourcePath e = normalizedPath segs \<and>
          (req_resourcePath params = resourcePath e @ ''/'' \<or>
           req_resourcePath params = tl (resourcePath e)) \<and>
          find (\<lambda>p. resourcePath p = resourcePath e) perms = Some e \<and>
          req_action params \<in> set (actions e)
          \<longrightarrow> hasPermission perms params workflowStage
              = (if hasOverride perms (req_resourcePath params) (req_action params) then Inr False
                 else case workflowDenies (metadata e) (currentStage params workflowStage)
                             (req_action params) of
                        Inl err \<Rightarrow> Inl err
                      | Inr denied \<Rightarrow> Inr (\<not> denied)))"
proof -
  let ?rp = "req_resourcePath params"
  let ?segs = "pathSegments ?rp"
  let ?decided = "if hasOverride perms ?rp (req_action params) then Inr False
                  else case workflowDenies (metadata e) (currentStage params workflowStage)
                              (req_action params) of
                         Inl err \<Rightarrow> Inl err
                       | Inr denied \<Rightarrow> Inr (\<not> denied)"
  from assms(1) obtain n where n: "length ?segs = Suc n" by (cases ?segs) simp_all
  have pp: "parentPath ?segs n = normalizedPath ?segs"
    using n assms(1) by (simp add: parentPath_def join_slash_normalized)
  have decided: "hasPermission perms params workflowStage = ?decided"
    if f: "find (\<lambda>p. resourcePath p = normalizedPath ?segs) perms = Some e"
      and a: "req_action params \<in> set (actions e)"
  proof -
    from f pp have f': "find (\<lambda>p. resourcePath p = parentPath ?segs n) perms = Some e" by simp
    show ?thesis
      unfolding hasPermission_no_exact [OF assms(2)] n
      using a by (simp add: f' split: sum.splits)
  qed
  have variant: "hasPermission perms params workflowStage = ?decided"
    if sf: "slashFree segs" and q: "resourcePath e = normalizedPath segs"
      and r: "?rp = resourcePath e @ ''/'' \<or> ?rp = tl (resourcePath e)"
      and f: "find (\<lambda>p. resourcePath p = resourcePath e) perms = Some e"
      and a: "req_action params \<in> set (actions e)"
  proof -
    from r q have "?segs = segs"
      using pathSegments_trailing_slash [OF sf] pathSegments_no_leading_slash [OF sf] by auto
    with q f have "find (\<lambda>p. resourcePath p = normalizedPath ?segs) perms = Some e" by simp
    then show ?thesis using a by (rule decided)
  qed
  show ?thesis
  proof (intro conjI impI)
    show "parentPath ?segs (length ?segs - 1) = normalizedPath ?segs"
      using pp n by simp
  next
    assume "find (\<lambda>p. resourcePath p = normalizedPath ?segs) perms = Some e \<and>
      req_action params \<in> set (actions e)"
    then show "hasPermission perms params workflowStage = ?decided"
      using decided by blast
  next
    assume "slashFree segs \<and> resourcePath e = normalizedPath segs \<and>
      (?rp = resourcePath e @ ''/'' \<or> ?rp = tl (resourcePath e)) \<and>
      find (\<lambda>p. resourcePath p = resourcePath e) perms = Some e \<and>
      req_action params \<in> set (actions e)"
    then show "hasPermission perms params workflowStage = ?decided"
      using variant by blast
  qed
qed

text \<open>
  Witness, with two segments: the requests \<open>/orders/form/\<close> and \<open>orders/form\<close> match no
  entry exactly and are granted \<open>READ\<close> by the entry at \<open>/orders/form\<close>.
\<close>

theorem normalized_fallback_witness:
  "hasPermission [entry ''/orders/form'' [''READ''] None None]
     (request ''/orders/form/'' ''READ'' None) None = Inr True
   \<and> hasPermission [entry ''/orders/form'' [''READ''] None None]
     (request ''orders/form'' ''READ'' None) None = Inr True"
proof -
  let ?e = "entry ''/orders/form'' [''READ''] None None"
  have sf: "slashFree [''orders'', ''form'']" by (simp add: slashFree_def)
  have q: "resourcePath ?e = normalizedPath [''orders'', ''form'']"
    by (simp add: entry_def normalizedPath_def)
  have "hasPermission [?e] (request ''/orders/form/'' ''READ'' None) None = Inr True"
    using normalized_fallback
      [of "request ''/orders/form/'' ''READ'' None" "[?e]" ?e None "[''orders'', ''form'']",
       THEN conjunct2, THEN conjunct2] sf q
    by (simp add: entry_def request_def pathSegments_def hasOverride_def workflowDenies_def
        stageRestrictions_def currentStage_def)
  moreover
  have "hasPermission [?e] (request ''orders/form'' ''READ'' None) None = Inr True"
    using normalized_fallback
      [of "request ''orders/form'' ''READ'' None" "[?e]" ?e None "[''orders'', ''form'']",
       THEN conjunct2, THEN conjunct2] sf q
    by (simp add: entry_def request_def pathSegments_def hasOverride_def workflowDenies_def
        stageRestrictions_def currentStage_def)
  ultimately show ?thesis by simp
qed

section \<open>Properties of the compiler\<close>

subsection \<open>Auxiliary facts\<close>

lemma pushGroup_map_of:
  "map_of (pushGroup p g) =
     (map_of g)(pm_ResourceId p \<mapsto>
        (case map_of g (pm_ResourceId p) of None \<Rightarrow> [p] | Some ps \<Rightarrow> ps @ [p]))"
  by (induction g) (auto simp: fun_eq_iff)

lemma foldl_pushGroup_map_of:
  "map_of (foldl (\<lambda>groups p. pushGroup p groups) g rows) k =
     (case map_of g k of
        None \<Rightarrow> (if filter (\<lambda>p. pm_ResourceId p = k) rows = [] then None
                 else Some (filter (\<lambda>p. pm_ResourceId p = k) rows))
      | Some ps \<Rightarrow> Some (ps @ filter (\<lambda>p. pm_ResourceId p = k) rows))"
proof (induction rows arbitrary: g)
  case Nil
  show ?case by (simp split: option.split)
next
  case (Cons p rows)
  show ?case
    by (simp add: Cons.IH pushGroup_map_of split: option.split)
qed

lemma groupByResource_lookup:
  "filter (\<lambda>p. pm_ResourceId p = k) rows \<noteq> [] \<Longrightarrow>
   (k, filter (\<lambda>p. pm_ResourceId p = k) rows) \<in> set (groupByResource rows)"
  by (rule map_of_SomeD) (simp add: groupByResource_def foldl_pushGroup_map_of)

lemma roleGroup_filter:
  "filter (\<lambda>p. pm_ResourceId p = k) (filter (\<lambda>p. RoleId p = role \<and> IsActive p) m)
   = roleGroup role k m"
  by (simp add: roleGroup_def conj_commute conj_left_commute)

lemma resourceMap_fold_dom:
  "dom (fold (\<lambda>r m. m(ResourceId r \<mapsto> r)) rs m) = dom m \<union> ResourceId ` set rs"
  by (induction rs arbitrary: m) auto

lemma resourceMap_resolves:
  "rid \<in> ResourceId ` set resources \<Longrightarrow> \<exists>r. resourceMap resources rid = Some r"
  using resourceMap_fold_dom [of resources Map.empty]
  by (auto simp: resourceMap_def dom_def)

lemma compileGroup_error:
  "compileGroup pj pd now rmap amap rid ps = Inl e \<Longrightarrow> e = SyntaxError"
  by (auto simp: compileGroup_def parseMetadata_def Let_def
      split: option.splits list.splits sum.splits if_splits)

lemma compileGroups_propagates:
  assumes "(rid, ps) \<in> set groups"
    and "compileGroup pj pd now rmap amap rid ps = Inl SyntaxError"
  shows "compileGroups pj pd now rmap amap groups = Inl SyntaxError"
  using assms
proof (induction groups)
  case Nil
  then show ?case by simp
next
  case (Cons g groups)
  obtain k qs where g: "g = (k, qs)" by (cases g)
  show ?case
  proof (cases "compileGroup pj pd now rmap amap k qs")
    case (Inl e)
    then have "e = SyntaxError" by (rule compileGroup_error)
    with Inl g show ?thesis by simp
  next
    case (Inr entry)
    with Cons.prems g have "(rid, ps) \<in> set groups" by auto
    then have "compileGroups pj pd now rmap amap groups = Inl SyntaxError"
      using Cons.IH Cons.prems(2) by simp
    with Inr g show ?thesis by simp
  qed
qed

subsection \<open>Validity window\<close>

text \<open>
  C2, evaluated on the code. Role 1 has two active rows on the resource \<open>/orders\<close>: one
  for \<open>READ\<close> without a validity window, and one for \<open>DELETE\<close> whose \<open>ValidTo\<close> is
  2020-01-01, earlier than the current time. The second row is not currently valid, and no
  currently valid row carries \<open>DELETE\<close>; yet the compiled entry's action set is
  \<open>["READ", "DELETE"]\<close>, because line 166 maps the action names over \<open>permissions\<close>, the
  whole group, and the validity filter of lines 173-177 only decides whether an entry is
  emitted and which row supplies the override flag, the window and the metadata.
\<close>

theorem expired_row_action_is_compiled:
  "\<not> isValidNow exampleParseDate exampleNow (row 2 2 (Some ''2020-01-01T00:00:00Z'') None)
   \<and> transformToUserPermissions exampleParseJSON exampleParseDate exampleNow
     [row 1 1 None None, row 2 2 (Some ''2020-01-01T00:00:00Z'') None]
     [ordersResource] exampleActions (Some 1)
   = Inr [\<lparr>resourcePath = ''/orders'', resourceId = 10, actions = [''READ'', ''DELETE''],
           isActive = True, isOverride = None, hierarchyLevel = 0, validFrom = None,
           validTo = None, metadata = None\<rparr>]"
  by (simp add: compiler_defs exampleParseDate_def exampleNow_def exampleParseJSON_def
      row_def ordersResource_def exampleActions_def)

subsection \<open>Malformed metadata\<close>

text \<open>
  C8 as stated fails on the code in two cases. The empty string is a metadata string that
  \<open>JSON.parse\<close> rejects, but line 190 tests the string for truthiness first and never
  parses it: the entry is emitted with metadata \<open>undefined\<close> and no error is signalled.
  And a group whose resource id resolves to no resource is skipped at lines 160-164 before
  its metadata is read: with the metadata \<open>{oops\<close> and no resource 10 the compiler returns
  the empty list, again without an error.
\<close>

theorem malformed_metadata_is_an_error_counterexample:
  "exampleParseJSON [] = None
   \<and> transformToUserPermissions exampleParseJSON exampleParseDate exampleNow
       [row 1 1 None (Some [])] [ordersResource] exampleActions (Some 1)
     = Inr [\<lparr>resourcePath = ''/orders'', resourceId = 10, actions = [''READ''],
             isActive = True, isOverride = None, hierarchyLevel = 0, validFrom = None,
             validTo = None, metadata = None\<rparr>]
   \<and> exampleParseJSON ''{oops'' = None
   \<and> transformToUserPermissions exampleParseJSON exampleParseDate exampleNow
       [row 1 1 None (Some ''{oops'')] [] exampleActions (Some 1)
     = Inr []"
  by (simp add: compiler_defs exampleParseDate_def exampleNow_def exampleParseJSON_def
      row_def ordersResource_def exampleActions_def)

text \<open>
  C8, amended: when the active role id is not 0, the resource id of the group resolves,
  and the first currently valid row of the group carries a non-empty metadata string that
  \<open>JSON.parse\<close> rejects, the compiler ends with a SyntaxError; it returns no compiled
  list, hence no entry with absent metadata.
\<close>

theorem malformed_metadata_is_an_error:
  assumes "role \<noteq> 0"
    and "rid \<in> ResourceId ` set resources"
    and "filter (isValidNow parseDate now) (roleGroup role rid permissionMatrix)
           = firstPermission # rest"
    and "Metadata firstPermission = Some s" and "s \<noteq> []" and "parseJSON s = None"
  shows "transformToUserPermissions parseJSON parseDate now permissionMatrix resources
           actions_list (Some role) = Inl SyntaxError"
proof -
  let ?rows = "filter (\<lambda>p. RoleId p = role \<and> IsActive p) permissionMatrix"
  let ?group = "roleGroup role rid permissionMatrix"
  from assms(3) have ne: "?group \<noteq> []" by auto
  have "(rid, ?group) \<in> set (groupByResource ?rows)"
    using ne by (rule groupByResource_lookup [of rid ?rows, unfolded roleGroup_filter])
  moreover
  obtain r where "resourceMap resources rid = Some r"
    using resourceMap_resolves [OF assms(2)] by blast
  then have "compileGroup parseJSON parseDate now (resourceMap resources)
               (actionMap actions_list) rid ?group = Inl SyntaxError"
    using assms(3-6) by (simp add: compileGroup_def parseMetadata_def)
  ultimately
  have "compileGroups parseJSON parseDate now (resourceMap resources) (actionMap actions_list)
          (groupByResource ?rows) = Inl SyntaxError"
    by (rule compileGroups_propagates)
  then show ?thesis
    using assms(1) by (simp add: transformToUserPermissions_def)
qed

text \<open>
  Witness: the first row of the group has expired, so the first currently valid row is
  the second one, whose metadata \<open>{oops\<close> does not parse.
\<close>

theorem malformed_metadata_is_an_error_witness:
  "transformToUserPermissions exampleParseJSON exampleParseDate exampleNow
     [row 1 1 (Some ''2020-01-01T00:00:00Z'') (Some ''{}''), row 2 2 None (Some ''{oops'')]
     [ordersResource] exampleActions (Some 1) = Inl SyntaxError"
proof (rule malformed_metadata_is_an_error)
  show "(1::int) \<noteq> 0" by simp
  show "10 \<in> ResourceId ` set [ordersResource]" by (simp add: ordersResource_def)
  show "filter (isValidNow exampleParseDate exampleNow)
          (roleGroup 1 10 [row 1 1 (Some ''2020-01-01T00:00:00Z'') (Some ''{}''), row 2 2 None (Some ''{oops'')])
        = [row 2 2 None (Some ''{oops'')]"
    by (simp add: roleGroup_def isValidNow_def startsLater_def endedBefore_def
        exampleParseDate_def exampleNow_def row_def)
  show "Metadata (row 2 2 None (Some ''{oops'')) = Some ''{oops''" by (simp add: row_def)
  show "''{oops'' \<noteq> []" by simp
  show "exampleParseJSON ''{oops'' = None" by (simp add: exampleParseJSON_def)
qed

end
